theory Spec2Isabelle
  imports Main "HOL-Library.Word"
begin

unbundle bit_operations_syntax

section \<open>The (7,4) Hamming codec: script \<open>5.py\<close> of the week 9 exercises\<close>

text \<open>
  The script holds two helper functions (\<open>bits_to_str\<close>, \<open>str_to_bits\<close>), the
  encoder \<open>hamming_encode\<close>, the decoder \<open>hamming_decode\<close> and a main block that runs
  one example. Bits are Python integers, so they are \<open>int\<close> here, and a bit sequence is
  an \<open>int list\<close>; the operator \<open>^\<close> of Python on integers is \<open>XOR\<close> on \<open>int\<close>.
\<close>

subsection \<open>Exceptions\<close>

text \<open>
  The exceptions the script can raise. \<open>ValueError m\<close> is a \<open>raise ValueError(m)\<close> of the
  script itself, with its message. \<open>InvalidLiteral b\<close> is the \<open>ValueError\<close> that the
  builtin \<open>int(b)\<close> raises on a character that is no decimal digit (the interpreter's
  message is not modelled, the character is kept). \<open>IndexError\<close> is raised by a list
  access out of range.
\<close>

datatype error = ValueError string | InvalidLiteral char | IndexError

text \<open>
  The two messages are Chinese text; a \<open>string\<close> holds bytes, so each message is written
  as the UTF-8 bytes it has in the source file. They read "the data must be 4 bits." and
  "the codeword must be 7 bits."
\<close>

definition msg_encode :: string where
  "msg_encode =
     [CHR 0xE8, CHR 0xB3, CHR 0x87, CHR 0xE6, CHR 0x96, CHR 0x99,
      CHR 0xE5, CHR 0xBF, CHR 0x85, CHR 0xE9, CHR 0xA0, CHR 0x88,
      CHR 0xE6, CHR 0x98, CHR 0xAF] @ '' 4 '' @
     [CHR 0xE4, CHR 0xBD, CHR 0x8D, CHR 0xE5, CHR 0x85, CHR 0x83,
      CHR 0xE3, CHR 0x80, CHR 0x82]"

definition msg_decode :: string where
  "msg_decode =
     [CHR 0xE7, CHR 0xA2, CHR 0xBC, CHR 0xE5, CHR 0xAD, CHR 0x97,
      CHR 0xE5, CHR 0xBF, CHR 0x85, CHR 0xE9, CHR 0xA0, CHR 0x88,
      CHR 0xE6, CHR 0x98, CHR 0xAF] @ '' 7 '' @
     [CHR 0xE4, CHR 0xBD, CHR 0x8D, CHR 0xE5, CHR 0x85, CHR 0x83,
      CHR 0xE3, CHR 0x80, CHR 0x82]"

subsection \<open>Python builtins the script uses\<close>

text \<open>
  \<open>str(i)\<close> on an integer: the decimal digits, with a leading minus sign for a negative
  number.
\<close>

definition digit_char :: "nat \<Rightarrow> char" where
  "digit_char n = char_of (48 + n)"

fun str_nat :: "nat \<Rightarrow> string" where
  "str_nat n = (if n < 10 then [digit_char n] else str_nat (n div 10) @ [digit_char (n mod 10)])"

declare str_nat.simps [simp del]

definition str_int :: "int \<Rightarrow> string" where
  "str_int i = (if i < 0 then CHR ''-'' # str_nat (nat (- i)) else str_nat (nat i))"

text \<open>
  \<open>int(b)\<close> on a string of one character \<open>b\<close>: the digit's value, or a \<open>ValueError\<close>.
  A \<open>char\<close> is a code point below 256, where the decimal digits are \<open>0\<close> to \<open>9\<close> only.
\<close>

definition int_char :: "char \<Rightarrow> error + int" where
  "int_char b =
     (if 48 \<le> (of_char b :: nat) \<and> (of_char b :: nat) \<le> 57
      then Inr (int (of_char b) - 48) else Inl (InvalidLiteral b))"

text \<open>
  \<open>xs[i]\<close> and \<open>xs[i] = v\<close> on a list: a negative index counts from the end, an index
  out of range raises \<open>IndexError\<close>.
\<close>

definition list_index :: "'a list \<Rightarrow> int \<Rightarrow> error + nat" where
  "list_index xs i =
     (let n = int (length xs); j = (if i < 0 then i + n else i)
      in if 0 \<le> j \<and> j < n then Inr (nat j) else Inl IndexError)"

definition getitem :: "'a list \<Rightarrow> int \<Rightarrow> error + 'a" where
  "getitem xs i = (case list_index xs i of Inl e \<Rightarrow> Inl e | Inr j \<Rightarrow> Inr (xs ! j))"

definition setitem :: "'a list \<Rightarrow> int \<Rightarrow> 'a \<Rightarrow> error + 'a list" where
  "setitem xs i v = (case list_index xs i of Inl e \<Rightarrow> Inl e | Inr j \<Rightarrow> Inr (xs[j := v]))"

subsection \<open>Helper functions\<close>

text \<open>\<open>bits_to_str(bits)\<close> is \<open>"".join(map(str, bits))\<close>.\<close>

definition bits_to_str :: "int list \<Rightarrow> string" where
  "bits_to_str bits = concat (map str_int bits)"

text \<open>
  \<open>str_to_bits(s)\<close> is \<open>[int(b) for b in s]\<close>: the characters are converted from left to
  right and the first one that fails raises.
\<close>

fun str_to_bits :: "string \<Rightarrow> error + int list" where
  "str_to_bits [] = Inr []"
| "str_to_bits (b # s) =
     (case int_char b of
        Inl e \<Rightarrow> Inl e
      | Inr v \<Rightarrow> (case str_to_bits s of Inl e \<Rightarrow> Inl e | Inr vs \<Rightarrow> Inr (v # vs)))"

subsection \<open>Encoder\<close>

text \<open>
  After the length check the four elements are unpacked by position
  (\<open>d1, d2, d3, d4 = data_bits\<close>).
\<close>

definition hamming_encode :: "int list \<Rightarrow> error + int list" where
  "hamming_encode data_bits =
     (if length data_bits \<noteq> 4 then Inl (ValueError msg_encode)
      else
        let d1 = data_bits ! 0; d2 = data_bits ! 1; d3 = data_bits ! 2; d4 = data_bits ! 3;
            p1 = d1 XOR d2 XOR d4;
            p2 = d1 XOR d3 XOR d4;
            p3 = d2 XOR d3 XOR d4;
            codeword = [p1, p2, d1, p3, d2, d3, d4]
        in Inr codeword)"

subsection \<open>Decoder\<close>

text \<open>
  The statement \<open>xs[i] = 1 - xs[i]\<close>, which the decoder uses to correct a bit and the
  main block uses to inject an error: the right-hand side is read first, then stored.
\<close>

definition flip_at :: "int list \<Rightarrow> int \<Rightarrow> error + int list" where
  "flip_at xs i = (case getitem xs i of Inl e \<Rightarrow> Inl e | Inr v \<Rightarrow> setitem xs i (1 - v))"

text \<open>
  The decoder returns the pair of the corrected data and the error position. Its
  \<open>print\<close> calls write progress lines to standard output; they do not touch the returned
  value and are left out.
\<close>

definition hamming_decode :: "int list \<Rightarrow> error + (int list \<times> int)" where
  "hamming_decode codeword =
     (if length codeword \<noteq> 7 then Inl (ValueError msg_decode)
      else
        let p1_rec = codeword ! 0;
            p2_rec = codeword ! 1;
            d1_rec = codeword ! 2;
            p3_rec = codeword ! 3;
            d2_rec = codeword ! 4;
            d3_rec = codeword ! 5;
            d4_rec = codeword ! 6;
            s1 = p1_rec XOR d1_rec XOR d2_rec XOR d4_rec;
            s2 = p2_rec XOR d1_rec XOR d3_rec XOR d4_rec;
            s3 = p3_rec XOR d2_rec XOR d3_rec XOR d4_rec;
            error_pos = (s3 * 4) + (s2 * 2) + (s1 * 1);
            corrected_codeword = codeword
        in
          case (if error_pos > 0
                then (let error_index = error_pos - 1 in flip_at corrected_codeword error_index)
                else Inr corrected_codeword) of
            Inl e \<Rightarrow> Inl e
          | Inr corrected_codeword \<Rightarrow>
              Inr ([corrected_codeword ! 2, corrected_codeword ! 4,
                    corrected_codeword ! 5, corrected_codeword ! 6], error_pos))"

subsection \<open>The decoder in the words of the specification\<close>

text \<open>
  The specification describes the decoder over bits at 1-based positions, with the
  exclusive or of bits as the sum modulo 2 (its glossary). The following definitions
  follow that wording and not the code; \<open>decode_spec\<close> is what the specification says
  the decoder returns on a codeword of 7 bits.
\<close>

definition xor_bit :: "int \<Rightarrow> int \<Rightarrow> int" where
  "xor_bit a b = (a + b) mod 2"

definition bit_at :: "int list \<Rightarrow> nat \<Rightarrow> int" where
  "bit_at cw k = cw ! (k - 1)"

definition flip_position :: "int list \<Rightarrow> nat \<Rightarrow> int list" where
  "flip_position cw k = cw[k - 1 := 1 - bit_at cw k]"

definition decode_spec :: "int list \<Rightarrow> int list \<times> int" where
  "decode_spec cw =
     (let p1 = bit_at cw 1; p2 = bit_at cw 2; d1 = bit_at cw 3; p3 = bit_at cw 4;
          d2 = bit_at cw 5; d3 = bit_at cw 6; d4 = bit_at cw 7;
          s1 = xor_bit (xor_bit (xor_bit p1 d1) d2) d4;
          s2 = xor_bit (xor_bit (xor_bit p2 d1) d3) d4;
          s3 = xor_bit (xor_bit (xor_bit p3 d2) d3) d4;
          position = s3 * 4 + s2 * 2 + s1 * 1;
          copy = (if position > 0 then flip_position cw (nat position) else cw)
      in ([bit_at copy 3, bit_at copy 5, bit_at copy 6, bit_at copy 7], position))"

section \<open>Lemmas about the model\<close>

lemma length_4_conv: "length (xs::'a list) = 4 \<longleftrightarrow> (\<exists>a b c e. xs = [a, b, c, e])"
  by (auto simp: length_Suc_conv numeral_eq_Suc)

lemma length_7_conv:
  "length (xs::'a list) = 7 \<longleftrightarrow> (\<exists>a b c d e f g. xs = [a, b, c, d, e, f, g])"
  by (auto simp: length_Suc_conv numeral_eq_Suc)

lemma encode_list: "hamming_encode [d1, d2, d3, d4] =
    Inr [d1 XOR d2 XOR d4, d1 XOR d3 XOR d4, d1, d2 XOR d3 XOR d4, d2, d3, d4]"
  by (simp add: hamming_encode_def)

lemmas decode_defs = hamming_decode_def flip_at_def getitem_def setitem_def list_index_def

lemma flip_decode_bits:
  assumes "a \<in> {0, 1}" "b \<in> {0, 1}" "c \<in> {0, 1}" "e \<in> {0, 1::int}"
      and "p = 1 \<or> p = 2 \<or> p = 3 \<or> p = 4 \<or> p = 5 \<or> p = 6 \<or> p = (7::int)"
  shows "\<exists>r. flip_at [a XOR b XOR e, a XOR c XOR e, a, b XOR c XOR e, b, c, e] (p - 1) = Inr r
      \<and> hamming_decode r = Inr ([a, b, c, e], p)"
  using assms by (elim disjE; auto simp add: decode_defs)

lemma decode_encoded_bits:
  assumes "a \<in> {0, 1}" "b \<in> {0, 1}" "c \<in> {0, 1}" "e \<in> {0, 1::int}"
  shows "hamming_decode [a XOR b XOR e, a XOR c XOR e, a, b XOR c XOR e, b, c, e]
           = Inr ([a, b, c, e], 0)"
  using assms by (auto simp add: decode_defs)

lemma decode_bits_spec:
  assumes "a \<in> {0, 1}" "b \<in> {0, 1}" "c \<in> {0, 1}" "d \<in> {0, 1}"
          "e \<in> {0, 1}" "f \<in> {0, 1}" "g \<in> {0, 1::int}"
  shows "hamming_decode [a, b, c, d, e, f, g] = Inr (decode_spec [a, b, c, d, e, f, g])"
  using assms
  by (auto simp add: decode_defs decode_spec_def xor_bit_def bit_at_def flip_position_def)

lemma decode_spec_range:
  assumes "a \<in> {0, 1}" "b \<in> {0, 1}" "c \<in> {0, 1}" "d \<in> {0, 1}"
          "e \<in> {0, 1}" "f \<in> {0, 1}" "g \<in> {0, 1::int}"
  shows "length (fst (decode_spec [a, b, c, d, e, f, g])) = 4
       \<and> set (fst (decode_spec [a, b, c, d, e, f, g])) \<subseteq> {0, 1}
       \<and> 0 \<le> snd (decode_spec [a, b, c, d, e, f, g])
       \<and> snd (decode_spec [a, b, c, d, e, f, g]) \<le> 7"
  using assms
  by (auto simp add: decode_spec_def xor_bit_def bit_at_def flip_position_def)

lemma flip_at_error: "flip_at xs i = Inl err \<Longrightarrow> err = IndexError"
  by (auto simp: flip_at_def getitem_def setitem_def list_index_def Let_def split: if_splits sum.splits)

lemma decode_error: "hamming_decode cw = Inl err \<Longrightarrow> length cw = 7 \<Longrightarrow> err = IndexError"
  by (auto simp: hamming_decode_def Let_def split: if_splits sum.splits dest: flip_at_error)

lemma decode_length_error: "length cw \<noteq> 7 \<Longrightarrow> hamming_decode cw = Inl (ValueError msg_decode)"
  by (simp add: hamming_decode_def)

lemma int_char_bits: "int_char CHR ''0'' = Inr 0" "int_char CHR ''1'' = Inr 1"
  by (simp_all add: int_char_def)

lemma str_int_bits: "str_int 0 = ''0''" "str_int 1 = ''1''"
  by code_simp+

lemma msg_digits: "CHR ''4'' \<in> set msg_encode" "CHR ''7'' \<in> set msg_decode"
  "CHR ''3'' \<notin> set msg_encode" "CHR ''5'' \<notin> set msg_encode"
  "CHR ''6'' \<notin> set msg_decode" "CHR ''8'' \<notin> set msg_decode"
  by (simp_all add: msg_encode_def msg_decode_def)

lemma bits4:
  assumes "length d = 4" "set d \<subseteq> {0, 1::int}"
  obtains a b c e where "d = [a, b, c, e]" "a \<in> {0, 1}" "b \<in> {0, 1}" "c \<in> {0, 1}" "e \<in> {0, 1}"
  using assms by (auto simp: length_4_conv)

lemma bits7:
  assumes "length cw = 7" "set cw \<subseteq> {0, 1::int}"
  obtains a b c d e f g where "cw = [a, b, c, d, e, f, g]"
    "a \<in> {0, 1}" "b \<in> {0, 1}" "c \<in> {0, 1}" "d \<in> {0, 1}" "e \<in> {0, 1}" "f \<in> {0, 1}" "g \<in> {0, 1}"
  using assms by (auto simp: length_7_conv)

lemma decode_on_bits:
  assumes "length cw = 7" and "set cw \<subseteq> {0, 1}"
  shows "hamming_decode cw = Inr (decode_spec cw)"
proof -
  from assms obtain a b c d e f g where cw: "cw = [a, b, c, d, e, f, g]"
    and bits: "a \<in> {0, 1}" "b \<in> {0, 1}" "c \<in> {0, 1}" "d \<in> {0, 1}"
              "e \<in> {0, 1}" "f \<in> {0, 1}" "g \<in> {0, 1}"
    by (rule bits7)
  from decode_bits_spec [OF bits] show ?thesis
    by (simp only: cw)
qed

lemma decode_spec_on_bits:
  assumes "length cw = 7" and "set cw \<subseteq> {0, 1}"
  shows "length (fst (decode_spec cw)) = 4 \<and> set (fst (decode_spec cw)) \<subseteq> {0, 1}
       \<and> 0 \<le> snd (decode_spec cw) \<and> snd (decode_spec cw) \<le> 7"
proof -
  from assms obtain a b c d e f g where cw: "cw = [a, b, c, d, e, f, g]"
    and bits: "a \<in> {0, 1}" "b \<in> {0, 1}" "c \<in> {0, 1}" "d \<in> {0, 1}"
              "e \<in> {0, 1}" "f \<in> {0, 1}" "g \<in> {0, 1}"
    by (rule bits7)
  from decode_spec_range [OF bits] show ?thesis
    by (simp only: cw)
qed

lemma str_to_bits_binary:
  "set s \<subseteq> {CHR ''0'', CHR ''1''} \<Longrightarrow>
     str_to_bits s = Inr (map (\<lambda>b. if b = CHR ''1'' then 1 else 0) s)"
  by (induction s) (auto simp: int_char_bits)

lemma bits_to_str_binary:
  "set s \<subseteq> {CHR ''0'', CHR ''1''} \<Longrightarrow>
     bits_to_str (map (\<lambda>b. if b = CHR ''1'' then 1 else 0) s) = s"
  by (induction s) (auto simp: bits_to_str_def str_int_bits)

section \<open>Properties\<close>

text \<open>
  C1. Single-bit-error correction: for every data word \<open>d\<close> of 4 bits and every position
  \<open>p\<close> from 1 to 7, encoding \<open>d\<close>, flipping the bit at position \<open>p\<close> (index \<open>p - 1\<close>, as
  the main block does) and decoding returns the data \<open>d\<close> and the error position \<open>p\<close>.
\<close>

theorem single_error_corrected:
  assumes "length d = 4" and "set d \<subseteq> {0, 1}" and "1 \<le> p" and "p \<le> 7"
  shows "\<exists>c r. hamming_encode d = Inr c \<and> flip_at c (p - 1) = Inr r
               \<and> hamming_decode r = Inr (d, p)"
proof -
  from assms(1,2) obtain a b c e where d: "d = [a, b, c, e]"
    and bits: "a \<in> {0, 1}" "b \<in> {0, 1}" "c \<in> {0, 1}" "e \<in> {0, 1}"
    by (rule bits4)
  from assms(3,4) have p: "p = 1 \<or> p = 2 \<or> p = 3 \<or> p = 4 \<or> p = 5 \<or> p = 6 \<or> p = 7"
    by arith
  from flip_decode_bits [OF bits p] show ?thesis
    unfolding d encode_list by blast
qed

theorem single_error_corrected_witness:
  "hamming_decode [0, 1, 1, 0, 1, 1, 1] = Inr ([1, 0, 1, 1], 5)"
proof -
  have enc: "hamming_encode [1, 0, 1, 1] = Inr [0, 1, 1, 0, 0, 1, 1]"
    by (simp add: encode_list)
  have flip: "flip_at [0, 1, 1, 0, 0, 1, 1] (5 - 1) = Inr [0, 1, 1, 0, 1, 1, 1]"
    by (simp add: flip_at_def getitem_def setitem_def list_index_def)
  from single_error_corrected [of "[1, 0, 1, 1]" 5]
  obtain c r where "hamming_encode [1, 0, 1, 1] = Inr c" "flip_at c (5 - 1) = Inr r"
    "hamming_decode r = Inr ([1, 0, 1, 1], 5)"
    by auto
  with enc flip show ?thesis by simp
qed

text \<open>
  C2. Round trip without corruption: for every data word \<open>d\<close> of 4 bits, decoding the
  encoded word returns \<open>d\<close> and the error position 0.
\<close>

theorem roundtrip_no_error:
  assumes "length d = 4" and "set d \<subseteq> {0, 1}"
  shows "\<exists>c. hamming_encode d = Inr c \<and> hamming_decode c = Inr (d, 0)"
proof -
  from assms obtain a b c e where d: "d = [a, b, c, e]"
    and bits: "a \<in> {0, 1}" "b \<in> {0, 1}" "c \<in> {0, 1}" "e \<in> {0, 1}"
    by (rule bits4)
  from decode_encoded_bits [OF bits] show ?thesis
    unfolding d encode_list by simp
qed

theorem roundtrip_no_error_witness:
  "hamming_decode [0, 1, 1, 0, 0, 1, 1] = Inr ([1, 0, 1, 1], 0)"
  using roundtrip_no_error [of "[1, 0, 1, 1]"] by (simp add: encode_list)

text \<open>
  C3. On every codeword of 7 bits the decoder returns what the specification describes
  (\<open>decode_spec\<close>): the syndrome bits \<open>s1\<close>, \<open>s2\<close>, \<open>s3\<close> over the received
  \<open>p1, p2, d1, p3, d2, d3, d4\<close>, the error position \<open>s3 * 4 + s2 * 2 + s1\<close>, the bit at
  that 1-based position flipped in a copy exactly when the position is positive, and the
  bits at positions 3, 5, 6, 7 of the copy as the data.
\<close>

theorem decode_refines_spec:
  assumes "length cw = 7" and "set cw \<subseteq> {0, 1}"
  shows "hamming_decode cw = Inr (decode_spec cw)"
  using assms by (rule decode_on_bits)

theorem decode_refines_spec_witness:
  "hamming_decode [0, 1, 1, 0, 1, 1, 1] = Inr (decode_spec [0, 1, 1, 0, 1, 1, 1])
   \<and> decode_spec [0, 1, 1, 0, 1, 1, 1] = ([1, 0, 1, 1], 5)"
  using decode_refines_spec [of "[0, 1, 1, 0, 1, 1, 1]"]
  by (simp add: decode_spec_def xor_bit_def bit_at_def flip_position_def)

text \<open>
  C4. The encoder returns the codeword in the order \<open>(p1, p2, d1, p3, d2, d3, d4)\<close> with
  \<open>p1 = d1 XOR d2 XOR d4\<close>, \<open>p2 = d1 XOR d3 XOR d4\<close>, \<open>p3 = d2 XOR d3 XOR d4\<close>; on bits
  these are the even-parity bits, the sums modulo 2 of the covered data bits.
\<close>

theorem encode_layout:
  "hamming_encode [d1, d2, d3, d4] =
     Inr [d1 XOR d2 XOR d4, d1 XOR d3 XOR d4, d1, d2 XOR d3 XOR d4, d2, d3, d4]
   \<and> (set [d1, d2, d3, d4] \<subseteq> {0, 1} \<longrightarrow>
        d1 XOR d2 XOR d4 = xor_bit (xor_bit d1 d2) d4
      \<and> d1 XOR d3 XOR d4 = xor_bit (xor_bit d1 d3) d4
      \<and> d2 XOR d3 XOR d4 = xor_bit (xor_bit d2 d3) d4)"
  by (auto simp add: encode_list xor_bit_def)

theorem encode_layout_witness:
  "hamming_encode [1, 0, 1, 1] = Inr [0, 1, 1, 0, 0, 1, 1]
   \<and> xor_bit (xor_bit 1 0) 1 = 0 \<and> xor_bit (xor_bit 1 1) 1 = 1 \<and> xor_bit (xor_bit 0 1) 1 = 0"
  using encode_layout [of 1 0 1 1] by simp

text \<open>
  C5. The encoder raises the length error exactly when its input does not have 4
  elements and the decoder exactly when its input does not have 7 (so on inputs of 3, 5
  and of 6, 8 bits); the encoder raises nothing else, and on a sequence of bits the
  decoder raises nothing else.
\<close>

theorem length_errors:
  "((\<exists>m. hamming_encode d = Inl (ValueError m)) \<longleftrightarrow> length d \<noteq> 4)
   \<and> (\<forall>err. hamming_encode d = Inl err \<longrightarrow> err = ValueError msg_encode)
   \<and> ((\<exists>m. hamming_decode c = Inl (ValueError m)) \<longleftrightarrow> length c \<noteq> 7)
   \<and> (set c \<subseteq> {0, 1} \<longrightarrow> (\<forall>err. hamming_decode c = Inl err \<longrightarrow> err = ValueError msg_decode))"
proof (intro conjI)
  show "(\<exists>m. hamming_encode d = Inl (ValueError m)) \<longleftrightarrow> length d \<noteq> 4"
    by (auto simp: hamming_encode_def Let_def)
  show "\<forall>err. hamming_encode d = Inl err \<longrightarrow> err = ValueError msg_encode"
    by (auto simp: hamming_encode_def Let_def split: if_splits)
  show "(\<exists>m. hamming_decode c = Inl (ValueError m)) \<longleftrightarrow> length c \<noteq> 7"
    using decode_error [of c] decode_length_error [of c] by auto
  show "set c \<subseteq> {0, 1} \<longrightarrow> (\<forall>err. hamming_decode c = Inl err \<longrightarrow> err = ValueError msg_decode)"
  proof (intro impI allI)
    fix err assume bits: "set c \<subseteq> {0, 1}" and fails: "hamming_decode c = Inl err"
    show "err = ValueError msg_decode"
    proof (cases "length c = 7")
      case True
      from True bits have "hamming_decode c = Inr (decode_spec c)"
        by (rule decode_on_bits)
      with fails show ?thesis by simp
    next
      case False
      with fails show ?thesis by (simp add: decode_length_error)
    qed
  qed
qed

theorem length_errors_witness:
  "hamming_encode [1, 0, 1] = Inl (ValueError msg_encode)
   \<and> hamming_encode [1, 0, 1, 1, 0] = Inl (ValueError msg_encode)
   \<and> hamming_decode [0, 1, 1, 0, 0, 1] = Inl (ValueError msg_decode)
   \<and> hamming_decode [0, 1, 1, 0, 0, 1, 1, 0] = Inl (ValueError msg_decode)"
proof -
  have "\<exists>m. hamming_encode [1, 0, 1] = Inl (ValueError m)"
    using length_errors [of "[1, 0, 1]" "[]"] by simp
  moreover have "\<exists>m. hamming_encode [1, 0, 1, 1, 0] = Inl (ValueError m)"
    using length_errors [of "[1, 0, 1, 1, 0]" "[]"] by simp
  moreover have "\<exists>m. hamming_decode [0, 1, 1, 0, 0, 1] = Inl (ValueError m)"
    using length_errors [of "[]" "[0, 1, 1, 0, 0, 1]"] by simp
  moreover have "\<exists>m. hamming_decode [0, 1, 1, 0, 0, 1, 1, 0] = Inl (ValueError m)"
    using length_errors [of "[]" "[0, 1, 1, 0, 0, 1, 1, 0]"] by simp
  ultimately show ?thesis
    using length_errors [of "[1, 0, 1]" "[0, 1, 1, 0, 0, 1]"]
      length_errors [of "[1, 0, 1, 1, 0]" "[0, 1, 1, 0, 0, 1, 1, 0]"]
    by auto
qed

text \<open>
  C6. On every input of 4 bits the encoder returns, and what it returns is 7 bits; on
  every input of 7 bits, a valid codeword or not, the decoder returns, and what it
  returns is 4 bits and an error position from 0 to 7.
\<close>

theorem codec_total:
  "(length d = 4 \<and> set d \<subseteq> {0, 1} \<longrightarrow>
      (\<exists>c. hamming_encode d = Inr c \<and> length c = 7 \<and> set c \<subseteq> {0, 1}))
   \<and> (length cw = 7 \<and> set cw \<subseteq> {0, 1} \<longrightarrow>
      (\<exists>dw pos. hamming_decode cw = Inr (dw, pos) \<and> length dw = 4 \<and> set dw \<subseteq> {0, 1}
                \<and> 0 \<le> pos \<and> pos \<le> 7))"
proof (intro conjI impI)
  assume "length d = 4 \<and> set d \<subseteq> {0, 1}"
  then obtain a b c e where d: "d = [a, b, c, e]"
    and bits: "a \<in> {0, 1}" "b \<in> {0, 1}" "c \<in> {0, 1}" "e \<in> {0, 1}"
    by (auto elim: bits4)
  from bits show "\<exists>c. hamming_encode d = Inr c \<and> length c = 7 \<and> set c \<subseteq> {0, 1}"
    unfolding d encode_list by auto
next
  assume "length cw = 7 \<and> set cw \<subseteq> {0, 1}"
  then have len: "length cw = 7" and bits: "set cw \<subseteq> {0, 1}"
    by simp_all
  obtain dw pos where r: "decode_spec cw = (dw, pos)"
    by (cases "decode_spec cw")
  from decode_spec_on_bits [OF len bits] r
  have "length dw = 4 \<and> set dw \<subseteq> {0, 1} \<and> 0 \<le> pos \<and> pos \<le> 7"
    by simp
  moreover from decode_on_bits [OF len bits] r have "hamming_decode cw = Inr (dw, pos)"
    by simp
  ultimately show "\<exists>dw pos. hamming_decode cw = Inr (dw, pos) \<and> length dw = 4
      \<and> set dw \<subseteq> {0, 1} \<and> 0 \<le> pos \<and> pos \<le> 7"
    by blast
qed

theorem codec_total_witness:
  "(\<exists>c. hamming_encode [1, 0, 1, 1] = Inr c \<and> length c = 7 \<and> set c \<subseteq> {0, 1})
   \<and> (\<exists>dw pos. hamming_decode [1, 1, 1, 1, 1, 1, 0] = Inr (dw, pos) \<and> length dw = 4
        \<and> set dw \<subseteq> {0, 1} \<and> 0 \<le> pos \<and> pos \<le> 7)"
  using codec_total [of "[1, 0, 1, 1]" "[1, 1, 1, 1, 1, 1, 0]"] by simp

text \<open>
  C7, as the specification states it, fails: the data word \<open>1011\<close> encodes to
  \<open>0110011\<close> (\<open>p3 = d2 XOR d3 XOR d4 = 0\<close>), not to \<open>0111011\<close>, and \<open>0110011\<close> is the
  uncorrupted codeword, which decodes with error position 0, not 5.
\<close>

theorem example_codeword_mismatch:
  "hamming_encode [1, 0, 1, 1] = Inr [0, 1, 1, 0, 0, 1, 1]
   \<and> hamming_encode [1, 0, 1, 1] \<noteq> Inr [0, 1, 1, 1, 0, 1, 1]
   \<and> hamming_decode [0, 1, 1, 0, 0, 1, 1] = Inr ([1, 0, 1, 1], 0)"
  by (simp add: encode_list decode_defs)

text \<open>
  C7, amended. The run of the main block: the text \<open>1011\<close> parses to the data word
  \<open>[1,0,1,1]\<close>, which encodes to the codeword \<open>0110011\<close>; with position 5 (index 4)
  flipped the received word is \<open>0110111\<close>, and decoding it reports error position 5 and
  returns the data \<open>1011\<close>.
\<close>

theorem known_example:
  "str_to_bits ''1011'' = Inr [1, 0, 1, 1]
   \<and> hamming_encode [1, 0, 1, 1] = Inr [0, 1, 1, 0, 0, 1, 1]
   \<and> bits_to_str [0, 1, 1, 0, 0, 1, 1] = ''0110011''
   \<and> flip_at [0, 1, 1, 0, 0, 1, 1] (5 - 1) = Inr [0, 1, 1, 0, 1, 1, 1]
   \<and> bits_to_str [0, 1, 1, 0, 1, 1, 1] = ''0110111''
   \<and> hamming_decode [0, 1, 1, 0, 1, 1, 1] = Inr ([1, 0, 1, 1], 5)"
  by (simp add: int_char_bits encode_list decode_defs bits_to_str_def str_int_bits)

text \<open>
  C8. A string of the characters \<open>0\<close> and \<open>1\<close> parses to a bit sequence, position by
  position, and the bit sequence is written back as the same string.
\<close>

theorem string_roundtrip:
  assumes "set s \<subseteq> {CHR ''0'', CHR ''1''}"
  shows "\<exists>bits. str_to_bits s = Inr bits \<and> bits_to_str bits = s
            \<and> bits = map (\<lambda>b. if b = CHR ''1'' then 1 else 0) s"
  using assms by (simp add: str_to_bits_binary bits_to_str_binary)

theorem string_roundtrip_witness:
  "str_to_bits ''1011'' = Inr [1, 0, 1, 1] \<and> bits_to_str [1, 0, 1, 1] = ''1011''"
  using string_roundtrip [of "''1011''"] by auto

text \<open>
  C9, as the specification states it, fails: the diagnostic does not identify the
  actual length. Inputs of 3 and of 5 elements get the same error from the encoder, and
  its message holds neither digit; the same for the decoder on 6 and 8 elements.
\<close>

theorem diagnostic_omits_actual_length:
  "hamming_encode [1, 0, 1] = hamming_encode [1, 0, 1, 1, 0]
   \<and> hamming_encode [1, 0, 1] = Inl (ValueError msg_encode)
   \<and> CHR ''3'' \<notin> set msg_encode \<and> CHR ''5'' \<notin> set msg_encode
   \<and> hamming_decode [0, 1, 1, 0, 0, 1] = hamming_decode [0, 1, 1, 0, 0, 1, 1, 0]
   \<and> hamming_decode [0, 1, 1, 0, 0, 1] = Inl (ValueError msg_decode)
   \<and> CHR ''6'' \<notin> set msg_decode \<and> CHR ''8'' \<notin> set msg_decode"
  by (simp add: hamming_encode_def hamming_decode_def msg_digits)

text \<open>
  C9, amended. On an input of the wrong length the encoder and the decoder raise a
  \<open>ValueError\<close> with a fixed message, the same for every such input, which names the
  expected length (4 for the encoder, 7 for the decoder).
\<close>

theorem diagnostic_fixed:
  "(length d \<noteq> 4 \<longrightarrow> hamming_encode d = Inl (ValueError msg_encode))
   \<and> CHR ''4'' \<in> set msg_encode
   \<and> (length c \<noteq> 7 \<longrightarrow> hamming_decode c = Inl (ValueError msg_decode))
   \<and> CHR ''7'' \<in> set msg_decode"
  by (simp add: hamming_encode_def hamming_decode_def msg_digits)

theorem diagnostic_fixed_witness:
  "hamming_encode [1, 0, 1] = Inl (ValueError msg_encode)
   \<and> hamming_decode [0, 1, 1, 0, 0, 1, 1, 0] = Inl (ValueError msg_decode)"
  using diagnostic_fixed [of "[1, 0, 1]" "[0, 1, 1, 0, 0, 1, 1, 0]"] by simp

text \<open>
  C10, as stated, fails in its last part: the decoder does not accept every list of 7
  integers. On \<open>[8,0,0,0,0,0,0]\<close> the computed error position is 8 and the correction
  reads index 7 of a list of 7 elements, which raises \<open>IndexError\<close>.
\<close>

theorem decode_index_error:
  "length [8, 0, 0, 0, 0, 0, 0 :: int] = 7
   \<and> hamming_decode [8, 0, 0, 0, 0, 0, 0] = Inl IndexError"
  by (simp add: decode_defs)

text \<open>
  C10, amended. Neither function checks that the elements are bits. The encoder returns
  a list of 7 elements on every list of 4 integers, and on \<open>[2,0,0,0]\<close> the result
  \<open>[2,2,2,0,0,0,0]\<close> holds a value that is no bit. The decoder never raises the length
  error on a list of 7 integers: it returns a result, with the computed error position,
  when that position is at most 7, and raises \<open>IndexError\<close> when it is above 7.
\<close>

theorem no_value_check:
  "(length d = 4 \<longrightarrow> (\<exists>cw. hamming_encode d = Inr cw \<and> length cw = 7))
   \<and> hamming_encode [2, 0, 0, 0] = Inr [2, 2, 2, 0, 0, 0, 0]
   \<and> (2::int) \<notin> {0, 1}
   \<and> (\<forall>m. hamming_decode [c1, c2, c3, c4, c5, c6, c7] \<noteq> Inl (ValueError m))
   \<and> (let pos = (c4 XOR c5 XOR c6 XOR c7) * 4 + (c2 XOR c3 XOR c6 XOR c7) * 2
                  + (c1 XOR c3 XOR c5 XOR c7) * 1
       in (pos \<le> 7 \<longrightarrow> (\<exists>dw. hamming_decode [c1, c2, c3, c4, c5, c6, c7] = Inr (dw, pos)))
        \<and> (7 < pos \<longrightarrow> hamming_decode [c1, c2, c3, c4, c5, c6, c7] = Inl IndexError))"
proof (intro conjI)
  show "length d = 4 \<longrightarrow> (\<exists>cw. hamming_encode d = Inr cw \<and> length cw = 7)"
    by (auto simp: length_4_conv encode_list)
  show "hamming_encode [2, 0, 0, 0] = Inr [2, 2, 2, 0, 0, 0, 0]"
    by (simp add: encode_list)
  show "(2::int) \<notin> {0, 1}" by simp
  show "\<forall>m. hamming_decode [c1, c2, c3, c4, c5, c6, c7] \<noteq> Inl (ValueError m)"
    using decode_error [of "[c1, c2, c3, c4, c5, c6, c7]"] by auto
  show "let pos = (c4 XOR c5 XOR c6 XOR c7) * 4 + (c2 XOR c3 XOR c6 XOR c7) * 2
                  + (c1 XOR c3 XOR c5 XOR c7) * 1
       in (pos \<le> 7 \<longrightarrow> (\<exists>dw. hamming_decode [c1, c2, c3, c4, c5, c6, c7] = Inr (dw, pos)))
        \<and> (7 < pos \<longrightarrow> hamming_decode [c1, c2, c3, c4, c5, c6, c7] = Inl IndexError)"
    by (simp add: decode_defs Let_def)
qed

theorem no_value_check_witness:
  "(\<exists>cw. hamming_encode [2, 0, 0, 0] = Inr cw \<and> length cw = 7)
   \<and> hamming_decode [2, 0, 0, 0, 0, 0, 0] = Inr ([0, 0, 0, 0], 2)
   \<and> hamming_decode [0, 0, 0, 9, 0, 0, 0] = Inl IndexError"
proof -
  have a: "\<exists>cw. hamming_encode [2, 0, 0, 0] = Inr cw \<and> length cw = 7"
    using no_value_check [of "[2, 0, 0, 0]" 0 0 0 0 0 0 0] by simp
  have b: "\<exists>dw. hamming_decode [2, 0, 0, 0, 0, 0, 0] = Inr (dw, 2)"
    using no_value_check [of "[]" 2 0 0 0 0 0 0] by (simp add: Let_def)
  have c: "hamming_decode [0, 0, 0, 9, 0, 0, 0] = Inl IndexError"
    using no_value_check [of "[]" 0 0 0 9 0 0 0] by (simp add: Let_def)
  from b have "hamming_decode [2, 0, 0, 0, 0, 0, 0] = Inr ([0, 0, 0, 0], 2)"
    by (auto simp: decode_defs)
  with a c show ?thesis by simp
qed

end
